theory Spec2Isabelle
  imports Main "HOL-Library.Word"
begin

section \<open>Images as the imaging library presents them\<close>

text \<open>
  The processor works on images of the Pillow library. An image has a mode (the string
  \<^verbatim>\<open>img.mode\<close>), a size \<^verbatim>\<open>(width, height)\<close> of Python integers, and 8-bit channel
  values. The channel values of a pixel are kept as four bytes: an \<^verbatim>\<open>RGBA\<close> image uses
  all four, an \<^verbatim>\<open>RGB\<close> image the first three, an \<^verbatim>\<open>LA\<close> image the first (grey) and the
  last (alpha), an \<^verbatim>\<open>L\<close> image the first only.
\<close>

type_synonym u8 = "8 word"

type_synonym pixel = "u8 \<times> u8 \<times> u8 \<times> u8"

datatype mode = ModeL | ModeLA | ModeRGB | ModeRGBA

record image =
  im_mode :: mode
  im_width :: int
  im_height :: int
  im_data :: "int \<Rightarrow> int \<Rightarrow> pixel"

datatype error =
    DecodeError
  | UnpackError
  | ValueError
  | OSError

type_synonym rect = "int \<times> int \<times> int \<times> int"

text \<open>
  Modelled from the spec: \<^verbatim>\<open>Image.convert('RGBA')\<close> belongs to the imaging library, not to
  the repository. Section 4.2 step 1 of the specification: four channels, alpha fully
  opaque if the source lacks alpha. Grey values are copied to the three colour channels.
\<close>

definition convert_rgba_pixel :: "mode \<Rightarrow> pixel \<Rightarrow> pixel" where
  "convert_rgba_pixel m p =
     (case p of (c0, c1, c2, c3) \<Rightarrow>
        (case m of
           ModeL \<Rightarrow> (c0, c0, c0, 255)
         | ModeLA \<Rightarrow> (c0, c0, c0, c3)
         | ModeRGB \<Rightarrow> (c0, c1, c2, 255)
         | ModeRGBA \<Rightarrow> (c0, c1, c2, c3)))"

definition convert_rgba :: "image \<Rightarrow> image" where
  "convert_rgba img =
     \<lparr>im_mode = ModeRGBA, im_width = im_width img, im_height = im_height img,
      im_data = (\<lambda>x y. convert_rgba_pixel (im_mode img) (im_data img x y))\<rparr>"

text \<open>
  \<^verbatim>\<open>img.getpixel((x, y))\<close>. Every call in the processor takes its coordinates from a
  \<^verbatim>\<open>range\<close> inside the image (lemmas \<open>py_range_bounds\<close> and \<open>py_range_down_bounds\<close>
  below), so the out-of-range \<^verbatim>\<open>IndexError\<close> has no branch here.
\<close>

definition getpixel :: "image \<Rightarrow> int \<times> int \<Rightarrow> pixel" where
  "getpixel img p = (case p of (x, y) \<Rightarrow> im_data img x y)"

text \<open>Python's \<^verbatim>\<open>range(n)\<close> and \<^verbatim>\<open>range(start, stop, -1)\<close>.\<close>

definition py_range :: "int \<Rightarrow> int list" where
  "py_range n = [0..n - 1]"

definition py_range_down :: "int \<Rightarrow> int \<Rightarrow> int list" where
  "py_range_down start stop = rev [stop + 1..start]"

section \<open>The processor\<close>

record processor =
  target_size :: "int \<times> int"
  bracket_offset :: int

text \<open>\<^verbatim>\<open>r == 0 and g == 0 and b == 0\<close>\<close>

definition is_black :: "pixel \<Rightarrow> bool" where
  "is_black p = (case p of (r, g, b, a) \<Rightarrow> r = 0 \<and> g = 0 \<and> b = 0)"

text \<open>\<^verbatim>\<open>r > 250 and g > 250 and b > 250\<close>\<close>

definition is_background :: "pixel \<Rightarrow> bool" where
  "is_background p = (case p of (r, g, b, a) \<Rightarrow> r > 250 \<and> g > 250 \<and> b > 250)"

text \<open>
  The corner searches of \<^verbatim>\<open>find_bracket_intersections\<close>: the inner loop over \<open>x\<close> stops at
  the first black pixel of the row, the outer loop over \<open>y\<close> stops at the first row that has
  one.
\<close>

fun scan_row :: "image \<Rightarrow> int \<Rightarrow> int list \<Rightarrow> (int \<times> int) option" where
  "scan_row img y [] = None"
| "scan_row img y (x # xs) =
     (if is_black (getpixel img (x, y)) then Some (x, y) else scan_row img y xs)"

fun scan_rows :: "image \<Rightarrow> int list \<Rightarrow> int list \<Rightarrow> (int \<times> int) option" where
  "scan_rows img [] xs = None"
| "scan_rows img (y # ys) xs =
     (case scan_row img y xs of
        Some p \<Rightarrow> Some p
      | None \<Rightarrow> scan_rows img ys xs)"

definition find_top_left :: "image \<Rightarrow> (int \<times> int) option" where
  "find_top_left img =
     scan_rows img (py_range (min 50 (im_height img))) (py_range (min 50 (im_width img)))"

definition find_bottom_right :: "image \<Rightarrow> (int \<times> int) option" where
  "find_bottom_right img =
     scan_rows img
       (py_range_down (im_height img - 1) (max (im_height img - 50) 0))
       (py_range_down (im_width img - 1) (max (im_width img - 50) 0))"

definition find_top_right :: "image \<Rightarrow> (int \<times> int) option" where
  "find_top_right img =
     scan_rows img
       (py_range (min 50 (im_height img)))
       (py_range_down (im_width img - 1) (max (im_width img - 50) 0))"

definition find_bottom_left :: "image \<Rightarrow> (int \<times> int) option" where
  "find_bottom_left img =
     scan_rows img
       (py_range_down (im_height img - 1) (max (im_height img - 50) 0))
       (py_range (min 50 (im_width img)))"

text \<open>
  \<^verbatim>\<open>_find_content_bounds_fallback\<close>: the two nested loops over the whole image, with the
  running rectangle as the loop state. The source's \<^verbatim>\<open>top\<close> and \<^verbatim>\<open>bottom\<close> are written
  \<open>upper\<close> and \<open>lower\<close> throughout (the imaging library's names for the same box
  coordinates), since \<open>top\<close> is a constant of HOL.
\<close>

definition fallback_step :: "image \<Rightarrow> int \<Rightarrow> int \<Rightarrow> rect \<Rightarrow> rect" where
  "fallback_step img y x acc =
     (case acc of (left, upper, right, lower) \<Rightarrow>
        if \<not> is_background (getpixel img (x, y))
        then (min left x, min upper y, max right x, max lower y)
        else acc)"

definition fallback_row :: "image \<Rightarrow> int list \<Rightarrow> int \<Rightarrow> rect \<Rightarrow> rect" where
  "fallback_row img xs y acc = fold (fallback_step img y) xs acc"

definition fallback_scan :: "image \<Rightarrow> rect" where
  "fallback_scan img =
     fold (fallback_row img (py_range (im_width img))) (py_range (im_height img))
       (im_width img, im_height img, 0, 0)"

text \<open>
  The unpacking \<^verbatim>\<open>r, g, b, a = img.getpixel((x, y))\<close> needs a four-channel pixel: on an
  image of another mode the first iteration raises. The mode is the same for every pixel,
  so the check is made once, before the loops; an image without pixels never unpacks.
\<close>

definition find_content_bounds_fallback :: "image \<Rightarrow> error + rect" where
  "find_content_bounds_fallback img =
     (if im_mode img \<noteq> ModeRGBA \<and> 0 < im_width img \<and> 0 < im_height img
      then Inl UnpackError
      else Inr (fallback_scan img))"

text \<open>Lines 76 to 87: the rectangle from the two required and the two optional corners.\<close>

definition bracket_rect ::
  "int \<Rightarrow> int \<times> int \<Rightarrow> int \<times> int \<Rightarrow> (int \<times> int) option \<Rightarrow> (int \<times> int) option \<Rightarrow> rect" where
  "bracket_rect offset top_left bottom_right top_right bottom_left =
     (let left = fst top_left + offset;
          upper = snd top_left + offset;
          right = fst bottom_right - offset;
          lower = snd bottom_right - offset;
          (right, upper) =
            (case top_right of
               Some tr \<Rightarrow> (max right (fst tr - offset), min upper (snd tr + offset))
             | None \<Rightarrow> (right, upper));
          (left, lower) =
            (case bottom_left of
               Some bl \<Rightarrow> (min left (fst bl + offset), max lower (snd bl - offset))
             | None \<Rightarrow> (left, lower))
      in (left, upper, right, lower))"

definition find_bracket_intersections :: "processor \<Rightarrow> image \<Rightarrow> error + rect" where
  "find_bracket_intersections self img0 =
     (let img = (if im_mode img0 \<noteq> ModeRGBA then convert_rgba img0 else img0);
          top_left = find_top_left img;
          bottom_right = find_bottom_right img;
          top_right = find_top_right img;
          bottom_left = find_bottom_left img
      in case (top_left, bottom_right) of
           (Some tl_pt, Some br_pt) \<Rightarrow>
             (case bracket_rect (bracket_offset self) tl_pt br_pt top_right bottom_left of
                (left, upper, right, lower) \<Rightarrow>
                  if right > left \<and> lower > upper
                  then Inr (left, upper, right, lower)
                  else find_content_bounds_fallback img)
         | _ \<Rightarrow> find_content_bounds_fallback img)"

section \<open>The imaging operations used by \<^verbatim>\<open>process_image\<close>\<close>

text \<open>
  Modelled from the spec: \<^verbatim>\<open>Image.crop\<close>, \<^verbatim>\<open>Image.resize\<close>, \<^verbatim>\<open>Image.new\<close>,
  \<^verbatim>\<open>Image.split\<close> and \<^verbatim>\<open>Image.paste\<close> belong to the imaging library, not to the repository.
  Section 4.2 of the specification gives their roles (crop to a box that is half-open on the
  high side, resize to the target size, composite over opaque white with an alpha-weighted
  blend); the details below are the library's documented behaviour: a crop box with
  \<open>right < left\<close> or \<open>lower < upper\<close> is rejected, a crop keeps the mode and reads zero
  outside the source, a resize keeps the mode, returns exactly the requested size and
  rejects a requested size below one, and a paste through an 8-bit mask rounds
  \<open>(background * (255 - mask) + source * mask) / 255\<close> to the nearest integer.
\<close>

definition crop :: "image \<Rightarrow> rect \<Rightarrow> error + image" where
  "crop img box =
     (case box of (left, upper, right, lower) \<Rightarrow>
        if right < left \<or> lower < upper then Inl ValueError
        else Inr \<lparr>im_mode = im_mode img, im_width = right - left, im_height = lower - upper,
                  im_data = (\<lambda>x y.
                     if 0 \<le> x + left \<and> x + left < im_width img \<and>
                        0 \<le> y + upper \<and> y + upper < im_height img
                     then im_data img (x + left) (y + upper)
                     else (0, 0, 0, 0))\<rparr>)"

text \<open>
  The resampling filter (\<^verbatim>\<open>Image.Resampling.LANCZOS\<close>) computes in floating point; it is a
  parameter: given the source image and the requested size it yields the new channel values.
\<close>

type_synonym resampler = "image \<Rightarrow> int \<times> int \<Rightarrow> int \<Rightarrow> int \<Rightarrow> pixel"

definition resize :: "resampler \<Rightarrow> image \<Rightarrow> int \<times> int \<Rightarrow> error + image" where
  "resize resample img sz =
     (if fst sz < 1 \<or> snd sz < 1 then Inl ValueError
      else Inr \<lparr>im_mode = im_mode img, im_width = fst sz, im_height = snd sz,
                im_data = resample img sz\<rparr>)"

definition new_rgb :: "int \<times> int \<Rightarrow> u8 \<times> u8 \<times> u8 \<Rightarrow> image" where
  "new_rgb sz colour =
     (case colour of (r, g, b) \<Rightarrow>
        \<lparr>im_mode = ModeRGB, im_width = fst sz, im_height = snd sz,
         im_data = (\<lambda>x y. (r, g, b, 255))\<rparr>)"

text \<open>\<^verbatim>\<open>img.split()[-1]\<close>: the last band, as a single-channel image.\<close>

definition last_band :: "image \<Rightarrow> image" where
  "last_band img =
     \<lparr>im_mode = ModeL, im_width = im_width img, im_height = im_height img,
      im_data = (\<lambda>x y. case im_data img x y of (c0, c1, c2, c3) \<Rightarrow>
         (case im_mode img of
            ModeL \<Rightarrow> (c0, 0, 0, 0)
          | ModeLA \<Rightarrow> (c3, 0, 0, 0)
          | ModeRGB \<Rightarrow> (c2, 0, 0, 0)
          | ModeRGBA \<Rightarrow> (c3, 0, 0, 0)))\<rparr>"

definition div255 :: "nat \<Rightarrow> nat" where
  "div255 a = (let tmp = a + 128 in (tmp div 256 + tmp) div 256)"

definition blend :: "u8 \<Rightarrow> u8 \<Rightarrow> u8 \<Rightarrow> u8" where
  "blend msk in1 in2 = of_nat (div255 (unat in1 * (255 - unat msk) + unat in2 * unat msk))"

definition paste :: "image \<Rightarrow> image \<Rightarrow> image \<Rightarrow> image" where
  "paste background im msk =
     background\<lparr>im_data := (\<lambda>x y.
        if 0 \<le> x \<and> x < im_width im \<and> 0 \<le> y \<and> y < im_height im
        then (case (im_data msk x y, im_data background x y, im_data im x y) of
                ((m, m1, m2, m3), (r0, g0, b0, a0), (r, g, b, a)) \<Rightarrow>
                  (blend m r0 r, blend m g0 g, blend m b0 b, a0))
        else im_data background x y)\<rparr>"

text \<open>Lines 141 to 144 of \<^verbatim>\<open>process_image\<close>.\<close>

definition flatten :: "image \<Rightarrow> image" where
  "flatten resized =
     (if im_mode resized = ModeRGBA
      then paste (new_rgb (im_width resized, im_height resized) (255, 255, 255))
             resized (last_band resized)
      else resized)"

section \<open>Files and paths\<close>

text \<open>
  Modelled from the spec: \<^verbatim>\<open>Image.open\<close>, \<^verbatim>\<open>Image.save\<close>, \<^verbatim>\<open>os.listdir\<close>, \<^verbatim>\<open>os.makedirs\<close>
  and \<^verbatim>\<open>os.path\<close> belong to the libraries, not to the repository. Section 7 of the
  specification names the failures: an input that cannot be read as an image, an output that
  cannot be written. The file system is a state: what each path decodes to, what each
  directory lists, and where directories and files can be created. Paths are POSIX
  strings.
\<close>

datatype file_content = Undecodable | Picture image

record filesystem =
  fs_files :: "string \<Rightarrow> file_content option"
  fs_listdir :: "string \<Rightarrow> string list option"
  fs_makedirs_ok :: "string \<Rightarrow> bool"
  fs_writable :: "string \<Rightarrow> bool"

definition image_open :: "filesystem \<Rightarrow> string \<Rightarrow> error + image" where
  "image_open fs path =
     (case fs_files fs path of
        None \<Rightarrow> Inl OSError
      | Some Undecodable \<Rightarrow> Inl DecodeError
      | Some (Picture img) \<Rightarrow> Inr img)"

definition makedirs :: "filesystem \<Rightarrow> string \<Rightarrow> error + unit" where
  "makedirs fs d = (if d = [] \<or> \<not> fs_makedirs_ok fs d then Inl OSError else Inr ())"

definition image_save :: "filesystem \<Rightarrow> image \<Rightarrow> string \<Rightarrow> error + filesystem" where
  "image_save fs img path =
     (if fs_writable fs path
      then Inr (fs\<lparr>fs_files := (fs_files fs)(path \<mapsto> Picture img)\<rparr>)
      else Inl OSError)"

definition rstrip_sep :: "string \<Rightarrow> string" where
  "rstrip_sep p = rev (dropWhile (\<lambda>c. c = CHR ''/'') (rev p))"

definition path_dirname :: "string \<Rightarrow> string" where
  "path_dirname p =
     (let head = rev (dropWhile (\<lambda>c. c \<noteq> CHR ''/'') (rev p))
      in if head \<noteq> [] \<and> \<not> list_all (\<lambda>c. c = CHR ''/'') head then rstrip_sep head else head)"





section \<open>Processing one image and a directory\<close>

text \<open>The body of the \<^verbatim>\<open>try\<close> block of \<^verbatim>\<open>process_image\<close>; the prints are left out.\<close>

definition process_body ::
  "processor \<Rightarrow> resampler \<Rightarrow> filesystem \<Rightarrow> string \<Rightarrow> string \<Rightarrow> error + filesystem" where
  "process_body self resample fs input_path output_path =
     (case image_open fs input_path of
        Inl e \<Rightarrow> Inl e
      | Inr img \<Rightarrow>
     (case find_bracket_intersections self img of
        Inl e \<Rightarrow> Inl e
      | Inr (left, upper, right, lower) \<Rightarrow>
     (case crop img (left, upper, right + 1, lower + 1) of
        Inl e \<Rightarrow> Inl e
      | Inr cropped \<Rightarrow>
     (case resize resample cropped (target_size self) of
        Inl e \<Rightarrow> Inl e
      | Inr resized \<Rightarrow>
     (case makedirs fs (path_dirname output_path) of
        Inl e \<Rightarrow> Inl e
      | Inr u \<Rightarrow> image_save fs (flatten resized) output_path)))))"

text \<open>\<^verbatim>\<open>except Exception\<close>: every error becomes \<^verbatim>\<open>False\<close>.\<close>

definition process_image ::
  "processor \<Rightarrow> resampler \<Rightarrow> filesystem \<Rightarrow> string \<Rightarrow> string \<Rightarrow> bool \<times> filesystem" where
  "process_image self resample fs input_path output_path =
     (case process_body self resample fs input_path output_path of
        Inl e \<Rightarrow> (False, fs)
      | Inr fs' \<Rightarrow> (True, fs'))"



section \<open>Notions used in the statements\<close>

text \<open>
  The pixels that the fallback scan counts as content: those with coordinates in the given
  ranges for which \<^verbatim>\<open>not (r > 250 and g > 250 and b > 250)\<close> holds; \<open>content_pixels\<close> are
  those of the whole image. \<open>all_background\<close> says that the image, seen through its RGBA
  copy, has no content pixel.

  \<open>encloses\<close> is the loop invariant of the fallback scan: from the rectangle \<open>acc\<close> the
  loops reach \<open>res\<close> after visiting the content pixels \<open>S\<close>: \<open>res\<close> contains \<open>acc\<close>'s bounds
  and every pixel of \<open>S\<close>, and each bound of \<open>res\<close> is the old bound or a coordinate of a
  pixel of \<open>S\<close>.

  \<open>rgb_of\<close> and \<open>alpha_of\<close> read the colour and the alpha of a four-channel pixel;
  \<open>saved_size\<close> and \<open>saved_mode\<close> read the size and the mode of the image stored at a path.

  \<open>image_ok\<close> is the outcome of \<^verbatim>\<open>process_image\<close> on one file of the input directory, run on
  the file system as \<^verbatim>\<open>batch_process\<close> finds it.
\<close>

definition content_in :: "image \<Rightarrow> int set \<Rightarrow> int set \<Rightarrow> (int \<times> int) set" where
  "content_in img X Y = {(x, y). x \<in> X \<and> y \<in> Y \<and> \<not> is_background (getpixel img (x, y))}"

definition content_pixels :: "image \<Rightarrow> (int \<times> int) set" where
  "content_pixels img = content_in img {0..<im_width img} {0..<im_height img}"

definition encloses :: "(int \<times> int) set \<Rightarrow> rect \<Rightarrow> rect \<Rightarrow> bool" where
  "encloses S acc res =
     (case acc of (l, u, r, d) \<Rightarrow> case res of (l', u', r', d') \<Rightarrow>
        l' \<le> l \<and> u' \<le> u \<and> r \<le> r' \<and> d \<le> d' \<and>
        (\<forall>p \<in> S. l' \<le> fst p \<and> fst p \<le> r' \<and> u' \<le> snd p \<and> snd p \<le> d') \<and>
        (l' = l \<or> l' \<in> fst ` S) \<and> (u' = u \<or> u' \<in> snd ` S) \<and>
        (r' = r \<or> r' \<in> fst ` S) \<and> (d' = d \<or> d' \<in> snd ` S))"

definition all_background :: "image \<Rightarrow> bool" where
  "all_background img =
     (\<forall>x y. 0 \<le> x \<and> x < im_width img \<and> 0 \<le> y \<and> y < im_height img \<longrightarrow>
        is_background (getpixel (convert_rgba img) (x, y)))"

definition rgb_of :: "pixel \<Rightarrow> u8 \<times> u8 \<times> u8" where
  "rgb_of p = (case p of (r, g, b, a) \<Rightarrow> (r, g, b))"

definition alpha_of :: "pixel \<Rightarrow> u8" where
  "alpha_of p = (case p of (r, g, b, a) \<Rightarrow> a)"

definition saved_size :: "filesystem \<Rightarrow> string \<Rightarrow> (int \<times> int) option" where
  "saved_size fs path =
     (case fs_files fs path of
        Some (Picture img) \<Rightarrow> Some (im_width img, im_height img)
      | _ \<Rightarrow> None)"

definition saved_mode :: "filesystem \<Rightarrow> string \<Rightarrow> mode option" where
  "saved_mode fs path =
     (case fs_files fs path of
        Some (Picture img) \<Rightarrow> Some (im_mode img)
      | _ \<Rightarrow> None)"


section \<open>Example inputs\<close>

text \<open>
  \<open>marks_image w h marks\<close> is an opaque white RGBA image with black pixels at \<open>marks\<close>.
  \<open>bracket_image\<close> is the 800 by 600 scenario of the specification, \<open>small_bracket_image\<close>
  the 100 by 100 one. \<open>default_processor\<close> has the defaults of \<^verbatim>\<open>__init__\<close>. \<open>nearest\<close> is a
  resampling filter to run examples with.
\<close>

definition marks_image :: "int \<Rightarrow> int \<Rightarrow> (int \<times> int) list \<Rightarrow> image" where
  "marks_image w h marks =
     \<lparr>im_mode = ModeRGBA, im_width = w, im_height = h,
      im_data = (\<lambda>x y. if (x, y) \<in> set marks then (0, 0, 0, 255) else (255, 255, 255, 255))\<rparr>"

definition bracket_image :: image where
  "bracket_image = marks_image 800 600 [(10, 10), (790, 10), (10, 590), (790, 590)]"

definition small_bracket_image :: image where
  "small_bracket_image = marks_image 100 100 [(1, 1), (98, 1), (1, 98), (98, 98)]"

definition centre_mark_image :: image where
  "centre_mark_image = marks_image 100 100 [(50, 50)]"

definition black_dot :: image where
  "black_dot = marks_image 1 1 [(0, 0)]"

definition white_dot :: image where
  "white_dot = marks_image 1 1 []"

definition blank_image :: image where
  "blank_image = marks_image 3 2 []"

definition two_dot_image :: image where
  "two_dot_image =
     \<lparr>im_mode = ModeRGBA, im_width = 3, im_height = 2,
      im_data = (\<lambda>x y. if (x, y) = (1, 0) \<or> (x, y) = (2, 1) then (10, 20, 30, 255)
                         else (255, 255, 255, 255))\<rparr>"

definition grey_dot :: image where
  "grey_dot = \<lparr>im_mode = ModeL, im_width = 1, im_height = 1, im_data = (\<lambda>x y. (0, 0, 0, 0))\<rparr>"

definition la_dot :: image where
  "la_dot = \<lparr>im_mode = ModeLA, im_width = 1, im_height = 1, im_data = (\<lambda>x y. (7, 0, 0, 0))\<rparr>"

definition rgba_pair :: image where
  "rgba_pair = \<lparr>im_mode = ModeRGBA, im_width = 2, im_height = 1,
     im_data = (\<lambda>x y. if x = 0 then (1, 2, 3, 0) else (4, 5, 6, 255))\<rparr>"

definition default_processor :: processor where
  "default_processor = \<lparr>target_size = (670, 366), bracket_offset = 2\<rparr>"

definition wide_offset_processor :: processor where
  "wide_offset_processor = \<lparr>target_size = (670, 366), bracket_offset = 500\<rparr>"

definition nearest :: resampler where
  "nearest img sz x y = im_data img (x * im_width img div fst sz) (y * im_height img div snd sz)"

definition single_file_fs :: "string \<Rightarrow> file_content \<Rightarrow> filesystem" where
  "single_file_fs path c =
     \<lparr>fs_files = [path \<mapsto> c], fs_listdir = (\<lambda>d. None),
      fs_makedirs_ok = (\<lambda>d. True), fs_writable = (\<lambda>p. True)\<rparr>"


section \<open>Properties\<close>

subsection \<open>The fallback content-bounds scan\<close>

lemma encloses_refl: "encloses {} acc acc"
  by (simp add: encloses_def split: prod.splits)

lemma encloses_trans:
  assumes "encloses S acc mid" and "encloses T mid res"
  shows "encloses (S \<union> T) acc res"
proof -
  obtain l u r d where acc: "acc = (l, u, r, d)" by (cases acc) auto
  obtain l1 u1 r1 d1 where mid: "mid = (l1, u1, r1, d1)" by (cases mid) auto
  obtain l2 u2 r2 d2 where res: "res = (l2, u2, r2, d2)" by (cases res) auto
  from assms show ?thesis
    unfolding acc mid res encloses_def image_Un
    by (simp add: ball_Un) (meson order_trans)
qed

lemma content_in_single:
  "content_in img {x} {y} = (if is_background (getpixel img (x, y)) then {} else {(x, y)})"
  by (auto simp: content_in_def)

lemma encloses_step:
  "encloses (content_in img {x} {y}) acc (fallback_step img y x acc)"
  by (cases acc) (simp add: encloses_def fallback_step_def content_in_single min_def max_def)

lemma content_in_insert_x:
  "content_in img (insert x X) Y = content_in img {x} Y \<union> content_in img X Y"
  by (auto simp: content_in_def)

lemma content_in_insert_y:
  "content_in img X (insert y Y) = content_in img X {y} \<union> content_in img X Y"
  by (auto simp: content_in_def)

lemma content_in_empty [simp]: "content_in img {} Y = {}" "content_in img X {} = {}"
  by (auto simp: content_in_def)

lemma encloses_row:
  "encloses (content_in img (set xs) {y}) acc (fallback_row img xs y acc)"
proof (induction xs arbitrary: acc)
  case Nil
  show ?case by (simp add: fallback_row_def encloses_refl)
next
  case (Cons x xs)
  have "encloses (content_in img {x} {y} \<union> content_in img (set xs) {y}) acc
          (fallback_row img xs y (fallback_step img y x acc))"
    by (rule encloses_trans [OF encloses_step Cons.IH])
  then show ?case
    by (simp add: fallback_row_def content_in_insert_x [symmetric])
qed

lemma encloses_rows:
  "encloses (content_in img (set xs) (set ys)) acc (fold (fallback_row img xs) ys acc)"
proof (induction ys arbitrary: acc)
  case Nil
  show ?case by (simp add: encloses_refl)
next
  case (Cons y ys)
  have "encloses (content_in img (set xs) {y} \<union> content_in img (set xs) (set ys)) acc
          (fold (fallback_row img xs) ys (fallback_row img xs y acc))"
    by (rule encloses_trans [OF encloses_row Cons.IH])
  then show ?case
    by (simp add: content_in_insert_y [symmetric])
qed

lemma py_range_set: "set (py_range n) = {0..<n}"
  by (auto simp: py_range_def)

lemma py_range_down_set: "set (py_range_down start stop) = {stop<..start}"
  by (auto simp: py_range_down_def)

lemma fallback_scan_encloses:
  "encloses (content_pixels img) (im_width img, im_height img, 0, 0) (fallback_scan img)"
  using encloses_rows [of img "py_range (im_width img)" "py_range (im_height img)"]
  by (simp add: fallback_scan_def content_pixels_def py_range_set)

lemma finite_content_pixels: "finite (content_pixels img)"
proof -
  have "content_pixels img \<subseteq> {0..<im_width img} \<times> {0..<im_height img}"
    by (auto simp: content_pixels_def content_in_def)
  then show ?thesis by (rule finite_subset) simp
qed

lemma content_pixels_bounds:
  "p \<in> content_pixels img \<Longrightarrow>
     0 \<le> fst p \<and> fst p < im_width img \<and> 0 \<le> snd p \<and> snd p < im_height img"
  by (auto simp: content_pixels_def content_in_def)

lemma fallback_scan_empty:
  assumes "content_pixels img = {}"
  shows "fallback_scan img = (im_width img, im_height img, 0, 0)"
  using fallback_scan_encloses [of img] assms
  by (cases "fallback_scan img") (simp add: encloses_def)

lemma fallback_scan_exact:
  assumes ne: "content_pixels img \<noteq> {}"
  shows "fallback_scan img =
           (Min (fst ` content_pixels img), Min (snd ` content_pixels img),
            Max (fst ` content_pixels img), Max (snd ` content_pixels img))"
proof -
  let ?S = "content_pixels img"
  obtain l u r d where res: "fallback_scan img = (l, u, r, d)"
    by (cases "fallback_scan img") auto
  have fin: "finite (fst ` ?S)" "finite (snd ` ?S)"
    using finite_content_pixels by auto
  have enc: "encloses ?S (im_width img, im_height img, 0, 0) (l, u, r, d)"
    using fallback_scan_encloses [of img] res by simp
  then have all: "\<forall>p \<in> ?S. l \<le> fst p \<and> fst p \<le> r \<and> u \<le> snd p \<and> snd p \<le> d"
    by (simp add: encloses_def)
  obtain p where p: "p \<in> ?S" using ne by auto
  from enc have "l = im_width img \<or> l \<in> fst ` ?S" by (simp add: encloses_def)
  moreover have "l \<noteq> im_width img"
    using all p content_pixels_bounds [OF p] by fastforce
  ultimately have l_in: "l \<in> fst ` ?S" by simp
  from enc have "u = im_height img \<or> u \<in> snd ` ?S" by (simp add: encloses_def)
  moreover have "u \<noteq> im_height img"
    using all p content_pixels_bounds [OF p] by fastforce
  ultimately have u_in: "u \<in> snd ` ?S" by simp
  from enc have "r = 0 \<or> r \<in> fst ` ?S" by (simp add: encloses_def)
  moreover have "r = 0 \<Longrightarrow> r \<in> fst ` ?S"
  proof -
    assume r0: "r = 0"
    have "fst p = 0" using all p content_pixels_bounds [OF p] r0 by fastforce
    then show ?thesis using p r0 by force
  qed
  ultimately have r_in: "r \<in> fst ` ?S" by blast
  from enc have "d = 0 \<or> d \<in> snd ` ?S" by (simp add: encloses_def)
  moreover have "d = 0 \<Longrightarrow> d \<in> snd ` ?S"
  proof -
    assume d0: "d = 0"
    have "snd p = 0" using all p content_pixels_bounds [OF p] d0 by fastforce
    then show ?thesis using p d0 by force
  qed
  ultimately have d_in: "d \<in> snd ` ?S" by blast
  have "Min (fst ` ?S) = l"
    by (rule Min_eqI [OF fin(1)]) (use all l_in in auto)
  moreover have "Min (snd ` ?S) = u"
    by (rule Min_eqI [OF fin(2)]) (use all u_in in auto)
  moreover have "Max (fst ` ?S) = r"
    by (rule Max_eqI [OF fin(1)]) (use all r_in in auto)
  moreover have "Max (snd ` ?S) = d"
    by (rule Max_eqI [OF fin(2)]) (use all d_in in auto)
  ultimately show ?thesis using res by simp
qed

text \<open>
  Claim C10. On an image in mode \<^verbatim>\<open>RGBA\<close> (the only mode the method is called with) that has
  at least one pixel that is not background (not all of R, G, B above 250), the fallback
  scan returns exactly the componentwise minimum and maximum of the coordinates of the
  non-background pixels, and these lie inside the image:
  \<open>0 \<le> left \<le> right \<le> width - 1\<close> and \<open>0 \<le> top \<le> bottom \<le> height - 1\<close>.
\<close>

theorem fallback_bounds_exact:
  assumes "im_mode img = ModeRGBA" and "content_pixels img \<noteq> {}"
  shows "\<exists>l u r d. find_content_bounds_fallback img = Inr (l, u, r, d) \<and>
           l = Min (fst ` content_pixels img) \<and> u = Min (snd ` content_pixels img) \<and>
           r = Max (fst ` content_pixels img) \<and> d = Max (snd ` content_pixels img) \<and>
           0 \<le> l \<and> l \<le> r \<and> r \<le> im_width img - 1 \<and>
           0 \<le> u \<and> u \<le> d \<and> d \<le> im_height img - 1"
proof -
  let ?S = "content_pixels img"
  have fin: "finite (fst ` ?S)" "finite (snd ` ?S)"
    using finite_content_pixels by auto
  have ne: "fst ` ?S \<noteq> {}" "snd ` ?S \<noteq> {}"
    using assms(2) by auto
  have bx: "\<forall>x \<in> fst ` ?S. 0 \<le> x \<and> x \<le> im_width img - 1"
    using content_pixels_bounds by fastforce
  have bnd_y: "\<forall>y \<in> snd ` ?S. 0 \<le> y \<and> y \<le> im_height img - 1"
    using content_pixels_bounds by fastforce
  have "0 \<le> Min (fst ` ?S)" using bx Min_in [OF fin(1) ne(1)] by blast
  moreover have "Max (fst ` ?S) \<le> im_width img - 1" using bx Max_in [OF fin(1) ne(1)] by blast
  moreover have "Min (fst ` ?S) \<le> Max (fst ` ?S)"
    using Min_le [OF fin(1) Max_in [OF fin(1) ne(1)]] .
  moreover have "0 \<le> Min (snd ` ?S)" using bnd_y Min_in [OF fin(2) ne(2)] by blast
  moreover have "Max (snd ` ?S) \<le> im_height img - 1" using bnd_y Max_in [OF fin(2) ne(2)] by blast
  moreover have "Min (snd ` ?S) \<le> Max (snd ` ?S)"
    using Min_le [OF fin(2) Max_in [OF fin(2) ne(2)]] .
  moreover have "find_content_bounds_fallback img = Inr (fallback_scan img)"
    using assms(1) by (simp add: find_content_bounds_fallback_def)
  ultimately show ?thesis
    using fallback_scan_exact [OF assms(2)] by simp
qed

text \<open>A 3 by 2 image with content at (1, 0) and (2, 1): the bounds are (1, 0, 2, 1).\<close>

theorem fallback_bounds_exact_witness:
  "im_mode two_dot_image = ModeRGBA \<and> content_pixels two_dot_image \<noteq> {} \<and>
   find_content_bounds_fallback two_dot_image = Inr (1, 0, 2, 1) \<and>
   Min (fst ` content_pixels two_dot_image) = 1 \<and>
   Min (snd ` content_pixels two_dot_image) = 0 \<and>
   Max (fst ` content_pixels two_dot_image) = 2 \<and>
   Max (snd ` content_pixels two_dot_image) = 1"
proof -
  have m: "im_mode two_dot_image = ModeRGBA"
    by (simp add: two_dot_image_def)
  have "(1, 0) \<in> content_pixels two_dot_image"
    by (simp add: content_pixels_def content_in_def two_dot_image_def getpixel_def
        is_background_def)
  then have ne: "content_pixels two_dot_image \<noteq> {}" by blast
  have ev: "find_content_bounds_fallback two_dot_image = Inr (1, 0, 2, 1)"
    by (simp add: find_content_bounds_fallback_def fallback_scan_def fallback_row_def
        fallback_step_def two_dot_image_def py_range_def getpixel_def is_background_def
        upto.simps)
  show ?thesis
    using fallback_bounds_exact [OF m ne] m ne ev by auto
qed

subsection \<open>The corner searches\<close>

lemma convert_rgba_idem: "im_mode img = ModeRGBA \<Longrightarrow> convert_rgba img = img"
  by (cases img) (simp add: convert_rgba_def convert_rgba_pixel_def)

lemma working_copy:
  "(if im_mode img \<noteq> ModeRGBA then convert_rgba img else img) = convert_rgba img"
  by (simp add: convert_rgba_idem)

lemma convert_rgba_simps [simp]:
  "im_mode (convert_rgba img) = ModeRGBA"
  "im_width (convert_rgba img) = im_width img"
  "im_height (convert_rgba img) = im_height img"
  by (simp_all add: convert_rgba_def)

lemma background_not_black: "is_background p \<Longrightarrow> \<not> is_black p"
  by (cases p) (auto simp: is_background_def is_black_def)

lemma scan_row_none:
  "\<forall>x \<in> set xs. \<not> is_black (getpixel img (x, y)) \<Longrightarrow> scan_row img y xs = None"
  by (induction xs) auto

lemma scan_rows_none:
  "\<forall>y \<in> set ys. \<forall>x \<in> set xs. \<not> is_black (getpixel img (x, y)) \<Longrightarrow>
     scan_rows img ys xs = None"
  by (induction ys) (auto simp: scan_row_none)

lemma scan_row_only:
  "x0 \<in> set xs \<Longrightarrow> \<forall>x \<in> set xs. is_black (getpixel img (x, y)) \<longleftrightarrow> x = x0 \<Longrightarrow>
     scan_row img y xs = Some (x0, y)"
  by (induction xs) auto

lemma scan_rows_only:
  assumes "y0 \<in> set ys" and "x0 \<in> set xs"
    and "\<forall>y \<in> set ys. \<forall>x \<in> set xs. is_black (getpixel img (x, y)) \<longleftrightarrow> x = x0 \<and> y = y0"
  shows "scan_rows img ys xs = Some (x0, y0)"
  using assms
proof (induction ys)
  case Nil
  then show ?case by simp
next
  case (Cons y ys)
  show ?case
  proof (cases "y = y0")
    case True
    have "scan_row img y xs = Some (x0, y)"
      using Cons.prems True by (intro scan_row_only) auto
    then show ?thesis using True by simp
  next
    case False
    have "scan_row img y xs = None"
      using Cons.prems False by (intro scan_row_none) auto
    moreover have "scan_rows img ys xs = Some (x0, y0)"
      using Cons.prems False by (intro Cons.IH) auto
    ultimately show ?thesis by simp
  qed
qed

lemma py_range_bounds: "x \<in> set (py_range (min 50 n)) \<Longrightarrow> 0 \<le> x \<and> x < n"
  by (auto simp: py_range_def)

lemma py_range_down_bounds:
  "x \<in> set (py_range_down (n - 1) (max (n - 50) 0)) \<Longrightarrow> 0 \<le> x \<and> x < n"
  by (auto simp: py_range_down_def)

lemma py_range_full_bounds: "x \<in> set (py_range n) \<Longrightarrow> 0 \<le> x \<and> x < n"
  by (auto simp: py_range_def)

lemma find_bracket_intersections_unfold:
  "find_bracket_intersections self img =
     (case (find_top_left (convert_rgba img), find_bottom_right (convert_rgba img)) of
        (Some tl_pt, Some br_pt) \<Rightarrow>
          (case bracket_rect (bracket_offset self) tl_pt br_pt
                  (find_top_right (convert_rgba img)) (find_bottom_left (convert_rgba img)) of
             (left, upper, right, lower) \<Rightarrow>
               if right > left \<and> lower > upper
               then Inr (left, upper, right, lower)
               else find_content_bounds_fallback (convert_rgba img))
      | _ \<Rightarrow> find_content_bounds_fallback (convert_rgba img))"
  unfolding find_bracket_intersections_def working_copy Let_def ..

lemma fallback_on_rgba:
  "find_content_bounds_fallback (convert_rgba img) = Inr (fallback_scan (convert_rgba img))"
  by (simp add: find_content_bounds_fallback_def)

lemma all_background_content: "all_background img \<Longrightarrow> content_pixels (convert_rgba img) = {}"
  by (auto simp: all_background_def content_pixels_def content_in_def)

lemma all_background_scans:
  assumes "all_background img"
  shows "find_top_left (convert_rgba img) = None"
    and "find_bottom_right (convert_rgba img) = None"
proof -
  have nb: "\<And>x y. 0 \<le> x \<and> x < im_width img \<Longrightarrow> 0 \<le> y \<and> y < im_height img \<Longrightarrow>
      \<not> is_black (getpixel (convert_rgba img) (x, y))"
    using assms background_not_black by (simp add: all_background_def)
  show "find_top_left (convert_rgba img) = None"
    unfolding find_top_left_def
    by (rule scan_rows_none) (use nb py_range_bounds in auto)
  show "find_bottom_right (convert_rgba img) = None"
    unfolding find_bottom_right_def
    by (rule scan_rows_none) (use nb py_range_down_bounds in auto)
qed

text \<open>
  Claim C1, as the code has it. For an image whose pixels are all background, the fallback
  scan returns the degenerate rectangle \<open>(width, height, 0, 0)\<close> and the locator returns it
  unchanged. \<^verbatim>\<open>process_image\<close> has no check of its own for it: it asks for the crop box
  \<open>(width, height, 1, 1)\<close>, which the imaging library rejects when the image is wider or
  higher than one pixel, and then \<^verbatim>\<open>process_image\<close> returns \<^verbatim>\<open>False\<close> and writes nothing.
\<close>

theorem all_background_outcome:
  assumes "all_background img"
  shows "find_content_bounds_fallback (convert_rgba img) = Inr (im_width img, im_height img, 0, 0) \<and>
         find_bracket_intersections self img = Inr (im_width img, im_height img, 0, 0) \<and>
         (fs_files fs input_path = Some (Picture img) \<and> (1 < im_width img \<or> 1 < im_height img) \<longrightarrow>
            process_image self resample fs input_path output_path = (False, fs))"
proof -
  have fb: "find_content_bounds_fallback (convert_rgba img) = Inr (im_width img, im_height img, 0, 0)"
    using fallback_scan_empty [OF all_background_content [OF assms]]
    by (simp add: fallback_on_rgba)
  have loc: "find_bracket_intersections self img = Inr (im_width img, im_height img, 0, 0)"
    by (simp add: find_bracket_intersections_unfold all_background_scans [OF assms] fb)
  have "process_image self resample fs input_path output_path = (False, fs)"
    if "fs_files fs input_path = Some (Picture img)" and "1 < im_width img \<or> 1 < im_height img"
  proof -
    have "crop img (im_width img, im_height img, 0 + 1, 0 + 1) = Inl ValueError"
      using that(2) by (auto simp: crop_def)
    then have "process_body self resample fs input_path output_path = Inl ValueError"
      using that(1) loc by (simp add: process_body_def image_open_def)
    then show ?thesis by (simp add: process_image_def)
  qed
  with fb loc show ?thesis by blast
qed

text \<open>
  Claim C4. When the top-left and bottom-right searches find candidates, the rectangle starts
  as \<open>left = topLeft.x + inset\<close>, \<open>top = topLeft.y + inset\<close>, \<open>right = bottomRight.x - inset\<close>,
  \<open>bottom = bottomRight.y - inset\<close>; a top-right candidate replaces \<open>right\<close> by
  \<open>max right (topRight.x - inset)\<close> and \<open>top\<close> by \<open>min top (topRight.y + inset)\<close>, a
  bottom-left candidate replaces \<open>left\<close> by \<open>min left (bottomLeft.x + inset)\<close> and \<open>bottom\<close>
  by \<open>max bottom (bottomLeft.y - inset)\<close>. The rectangle only grows: no side ends tighter
  than the first two corners put it. The locator returns this rectangle or the fallback's.
\<close>

theorem bracket_rect_extend_only:
  assumes "find_top_left (convert_rgba img) = Some (tlx, tly)"
    and "find_bottom_right (convert_rgba img) = Some (brx, bry)"
  shows "\<exists>left upper right lower.
      bracket_rect (bracket_offset self) (tlx, tly) (brx, bry)
        (find_top_right (convert_rgba img)) (find_bottom_left (convert_rgba img))
        = (left, upper, right, lower) \<and>
      right = (case find_top_right (convert_rgba img) of
                 None \<Rightarrow> brx - bracket_offset self
               | Some tr \<Rightarrow> max (brx - bracket_offset self) (fst tr - bracket_offset self)) \<and>
      upper = (case find_top_right (convert_rgba img) of
                 None \<Rightarrow> tly + bracket_offset self
               | Some tr \<Rightarrow> min (tly + bracket_offset self) (snd tr + bracket_offset self)) \<and>
      left = (case find_bottom_left (convert_rgba img) of
                None \<Rightarrow> tlx + bracket_offset self
              | Some bl \<Rightarrow> min (tlx + bracket_offset self) (fst bl + bracket_offset self)) \<and>
      lower = (case find_bottom_left (convert_rgba img) of
                 None \<Rightarrow> bry - bracket_offset self
               | Some bl \<Rightarrow> max (bry - bracket_offset self) (snd bl - bracket_offset self)) \<and>
      left \<le> tlx + bracket_offset self \<and> upper \<le> tly + bracket_offset self \<and>
      brx - bracket_offset self \<le> right \<and> bry - bracket_offset self \<le> lower \<and>
      find_bracket_intersections self img =
        (if right > left \<and> lower > upper then Inr (left, upper, right, lower)
         else find_content_bounds_fallback (convert_rgba img))"
proof -
  let ?rgba = "convert_rgba img"
  have run: "find_bracket_intersections self img =
      (case bracket_rect (bracket_offset self) (tlx, tly) (brx, bry)
              (find_top_right ?rgba) (find_bottom_left ?rgba) of
         (left, upper, right, lower) \<Rightarrow>
           if right > left \<and> lower > upper then Inr (left, upper, right, lower)
           else find_content_bounds_fallback ?rgba)"
    by (simp add: find_bracket_intersections_unfold assms)
  show ?thesis
  proof (cases "find_top_right ?rgba")
    case None
    then show ?thesis
      by (cases "find_bottom_left ?rgba") (simp_all add: run bracket_rect_def Let_def)
  next
    case (Some tr)
    then show ?thesis
      by (cases "find_bottom_left ?rgba") (simp_all add: run bracket_rect_def Let_def)
  qed
qed

text \<open>
  Claim C6. The locator returns the bracket rectangle only when \<open>right > left\<close> and
  \<open>bottom > top\<close>; when the rectangle is degenerate, or when the top-left or the
  bottom-right search finds nothing, it returns the content-bounds scan of the same RGBA
  image that the searches read.
\<close>

theorem locator_fallback_rule:
  "(\<forall>tl_pt br_pt left upper right lower.
      find_top_left (convert_rgba img) = Some tl_pt \<and>
      find_bottom_right (convert_rgba img) = Some br_pt \<and>
      bracket_rect (bracket_offset self) tl_pt br_pt
        (find_top_right (convert_rgba img)) (find_bottom_left (convert_rgba img))
        = (left, upper, right, lower) \<longrightarrow>
      find_bracket_intersections self img =
        (if right > left \<and> lower > upper then Inr (left, upper, right, lower)
         else Inr (fallback_scan (convert_rgba img)))) \<and>
   (find_top_left (convert_rgba img) = None \<or> find_bottom_right (convert_rgba img) = None \<longrightarrow>
      find_bracket_intersections self img = Inr (fallback_scan (convert_rgba img)))"
proof (intro conjI allI impI)
  fix tl_pt br_pt left upper right lower
  assume found: "find_top_left (convert_rgba img) = Some tl_pt \<and>
      find_bottom_right (convert_rgba img) = Some br_pt \<and>
      bracket_rect (bracket_offset self) tl_pt br_pt
        (find_top_right (convert_rgba img)) (find_bottom_left (convert_rgba img))
        = (left, upper, right, lower)"
  then show "find_bracket_intersections self img =
        (if right > left \<and> lower > upper then Inr (left, upper, right, lower)
         else Inr (fallback_scan (convert_rgba img)))"
    by (simp add: find_bracket_intersections_unfold fallback_on_rgba)
next
  assume "find_top_left (convert_rgba img) = None \<or> find_bottom_right (convert_rgba img) = None"
  then show "find_bracket_intersections self img = Inr (fallback_scan (convert_rgba img))"
    by (auto simp: find_bracket_intersections_unfold fallback_on_rgba split: option.splits)
qed

subsection \<open>Images with four corner marks\<close>

lemma four_marks_scans:
  assumes black: "\<forall>x y. 0 \<le> x \<and> x < im_width img \<and> 0 \<le> y \<and> y < im_height img \<longrightarrow>
        (is_black (getpixel (convert_rgba img) (x, y)) \<longleftrightarrow> (x = a \<or> x = c) \<and> (y = b \<or> y = d))"
    and a: "0 \<le> a" "a < min 50 (im_width img)" "a \<le> max (im_width img - 50) 0"
    and c: "max (im_width img - 50) 0 < c" "c < im_width img" "min 50 (im_width img) \<le> c"
    and b: "0 \<le> b" "b < min 50 (im_height img)" "b \<le> max (im_height img - 50) 0"
    and d: "max (im_height img - 50) 0 < d" "d < im_height img" "min 50 (im_height img) \<le> d"
  shows "find_top_left (convert_rgba img) = Some (a, b)"
    and "find_bottom_right (convert_rgba img) = Some (c, d)"
    and "find_top_right (convert_rgba img) = Some (c, b)"
    and "find_bottom_left (convert_rgba img) = Some (a, d)"
proof -
  let ?w = "im_width img" and ?h = "im_height img"
  have lo_x: "set (py_range (min 50 ?w)) = {0..<min 50 ?w}"
    and lo_y: "set (py_range (min 50 ?h)) = {0..<min 50 ?h}"
    by (rule py_range_set)+
  have hi_x: "set (py_range_down (?w - 1) (max (?w - 50) 0)) = {max (?w - 50) 0<..?w - 1}"
    and hi_y: "set (py_range_down (?h - 1) (max (?h - 50) 0)) = {max (?h - 50) 0<..?h - 1}"
    by (rule py_range_down_set)+
  show "find_top_left (convert_rgba img) = Some (a, b)"
    unfolding find_top_left_def convert_rgba_simps
  proof (rule scan_rows_only)
    show "b \<in> set (py_range (min 50 ?h))" using b lo_y by simp
    show "a \<in> set (py_range (min 50 ?w))" using a lo_x by simp
    show "\<forall>y \<in> set (py_range (min 50 ?h)). \<forall>x \<in> set (py_range (min 50 ?w)).
            is_black (getpixel (convert_rgba img) (x, y)) \<longleftrightarrow> x = a \<and> y = b"
      unfolding lo_x lo_y using black a b c d by auto
  qed
  show "find_bottom_right (convert_rgba img) = Some (c, d)"
    unfolding find_bottom_right_def convert_rgba_simps
  proof (rule scan_rows_only)
    show "d \<in> set (py_range_down (?h - 1) (max (?h - 50) 0))" using d hi_y by simp
    show "c \<in> set (py_range_down (?w - 1) (max (?w - 50) 0))" using c hi_x by simp
    show "\<forall>y \<in> set (py_range_down (?h - 1) (max (?h - 50) 0)).
          \<forall>x \<in> set (py_range_down (?w - 1) (max (?w - 50) 0)).
            is_black (getpixel (convert_rgba img) (x, y)) \<longleftrightarrow> x = c \<and> y = d"
      unfolding hi_x hi_y using black a b c d by auto
  qed
  show "find_top_right (convert_rgba img) = Some (c, b)"
    unfolding find_top_right_def convert_rgba_simps
  proof (rule scan_rows_only)
    show "b \<in> set (py_range (min 50 ?h))" using b lo_y by simp
    show "c \<in> set (py_range_down (?w - 1) (max (?w - 50) 0))" using c hi_x by simp
    show "\<forall>y \<in> set (py_range (min 50 ?h)).
          \<forall>x \<in> set (py_range_down (?w - 1) (max (?w - 50) 0)).
            is_black (getpixel (convert_rgba img) (x, y)) \<longleftrightarrow> x = c \<and> y = b"
      unfolding hi_x lo_y using black a b c d by auto
  qed
  show "find_bottom_left (convert_rgba img) = Some (a, d)"
    unfolding find_bottom_left_def convert_rgba_simps
  proof (rule scan_rows_only)
    show "d \<in> set (py_range_down (?h - 1) (max (?h - 50) 0))" using d hi_y by simp
    show "a \<in> set (py_range (min 50 ?w))" using a lo_x by simp
    show "\<forall>y \<in> set (py_range_down (?h - 1) (max (?h - 50) 0)).
          \<forall>x \<in> set (py_range (min 50 ?w)).
            is_black (getpixel (convert_rgba img) (x, y)) \<longleftrightarrow> x = a \<and> y = d"
      unfolding lo_x hi_y using black a b c d by auto
  qed
qed

lemma scenario_locator:
  assumes "im_width img = 800" and "im_height img = 600"
    and "\<forall>x y. 0 \<le> x \<and> x < 800 \<and> 0 \<le> y \<and> y < 600 \<longrightarrow>
           (is_black (getpixel (convert_rgba img) (x, y)) \<longleftrightarrow>
            (x, y) \<in> {(10, 10), (790, 10), (10, 590), (790, 590)})"
  shows "find_top_left (convert_rgba img) = Some (10, 10)"
    and "find_bottom_right (convert_rgba img) = Some (790, 590)"
    and "find_top_right (convert_rgba img) = Some (790, 10)"
    and "find_bottom_left (convert_rgba img) = Some (10, 590)"
proof -
  have black: "\<forall>x y. 0 \<le> x \<and> x < im_width img \<and> 0 \<le> y \<and> y < im_height img \<longrightarrow>
        (is_black (getpixel (convert_rgba img) (x, y)) \<longleftrightarrow>
         (x = 10 \<or> x = 790) \<and> (y = 10 \<or> y = 590))"
    using assms by auto
  show "find_top_left (convert_rgba img) = Some (10, 10)"
    by (rule four_marks_scans(1) [OF black]) (simp_all add: assms(1,2))
  show "find_bottom_right (convert_rgba img) = Some (790, 590)"
    by (rule four_marks_scans(2) [OF black]) (simp_all add: assms(1,2))
  show "find_top_right (convert_rgba img) = Some (790, 10)"
    by (rule four_marks_scans(3) [OF black]) (simp_all add: assms(1,2))
  show "find_bottom_left (convert_rgba img) = Some (10, 590)"
    by (rule four_marks_scans(4) [OF black]) (simp_all add: assms(1,2))
qed

lemma scenario_bounds:
  assumes "im_width img = 800" and "im_height img = 600" and "bracket_offset self = 2"
    and "\<forall>x y. 0 \<le> x \<and> x < 800 \<and> 0 \<le> y \<and> y < 600 \<longrightarrow>
           (is_black (getpixel (convert_rgba img) (x, y)) \<longleftrightarrow>
            (x, y) \<in> {(10, 10), (790, 10), (10, 590), (790, 590)})"
  shows "find_bracket_intersections self img = Inr (12, 12, 788, 588)"
  by (simp add: find_bracket_intersections_unfold scenario_locator [OF assms(1,2,4)]
      bracket_rect_def assms(3))

text \<open>
  Claim C5. For an 800 by 600 image whose only pure-black pixels are at (10, 10), (790, 10),
  (10, 590) and (790, 590), the locator with inset 2 returns \<open>(12, 12, 788, 588)\<close>, and
  \<^verbatim>\<open>process_image\<close> crops the half-open box \<open>[12, 789) \<times> [12, 589)\<close>: the crop is 777 by 577,
  its pixel \<open>(x, y)\<close> is the source's pixel \<open>(x + 12, y + 12)\<close>, and the rest of the pipeline
  runs on it.
\<close>

theorem scenario_800x600:
  assumes "im_width img = 800" and "im_height img = 600" and "bracket_offset self = 2"
    and "\<forall>x y. 0 \<le> x \<and> x < 800 \<and> 0 \<le> y \<and> y < 600 \<longrightarrow>
           (is_black (getpixel (convert_rgba img) (x, y)) \<longleftrightarrow>
            (x, y) \<in> {(10, 10), (790, 10), (10, 590), (790, 590)})"
  shows "find_bracket_intersections self img = Inr (12, 12, 788, 588) \<and>
         (\<exists>cropped. crop img (12, 12, 788 + 1, 588 + 1) = Inr cropped \<and>
            im_mode cropped = im_mode img \<and> im_width cropped = 777 \<and> im_height cropped = 577 \<and>
            (\<forall>x y. 0 \<le> x \<and> x < 777 \<and> 0 \<le> y \<and> y < 577 \<longrightarrow>
               im_data cropped x y = im_data img (x + 12) (y + 12)) \<and>
            (fs_files fs input_path = Some (Picture img) \<longrightarrow>
               process_body self resample fs input_path output_path =
                 (case resize resample cropped (target_size self) of
                    Inl e \<Rightarrow> Inl e
                  | Inr resized \<Rightarrow>
                      (case makedirs fs (path_dirname output_path) of
                         Inl e \<Rightarrow> Inl e
                       | Inr u \<Rightarrow> image_save fs (flatten resized) output_path))))"
proof -
  have loc: "find_bracket_intersections self img = Inr (12, 12, 788, 588)"
    by (rule scenario_bounds [OF assms])
  obtain cropped where c: "crop img (12, 12, 788 + 1, 588 + 1) = Inr cropped"
    by (simp add: crop_def)
  have props: "im_mode cropped = im_mode img \<and> im_width cropped = 777 \<and> im_height cropped = 577 \<and>
      (\<forall>x y. 0 \<le> x \<and> x < 777 \<and> 0 \<le> y \<and> y < 577 \<longrightarrow>
         im_data cropped x y = im_data img (x + 12) (y + 12))"
    using c assms(1,2) by (auto simp: crop_def)
  have "process_body self resample fs input_path output_path =
          (case resize resample cropped (target_size self) of
             Inl e \<Rightarrow> Inl e
           | Inr resized \<Rightarrow>
               (case makedirs fs (path_dirname output_path) of
                  Inl e \<Rightarrow> Inl e
                | Inr u \<Rightarrow> image_save fs (flatten resized) output_path))"
    if "fs_files fs input_path = Some (Picture img)"
    using that loc c by (simp add: process_body_def image_open_def)
  with loc c props show ?thesis by blast
qed

lemma bracket_image_black:
  "\<forall>x y. 0 \<le> x \<and> x < 800 \<and> 0 \<le> y \<and> y < 600 \<longrightarrow>
     (is_black (getpixel (convert_rgba bracket_image) (x, y)) \<longleftrightarrow>
      (x, y) \<in> {(10, 10), (790, 10), (10, 590), (790, 590)})"
  by (auto simp: bracket_image_def marks_image_def convert_rgba_def convert_rgba_pixel_def
      getpixel_def is_black_def)

lemma bracket_image_size: "im_width bracket_image = 800" "im_height bracket_image = 600"
  by (simp_all add: bracket_image_def marks_image_def)

text \<open>The scenario's image, white except for the four black marks.\<close>

theorem scenario_800x600_witness:
  "im_width bracket_image = 800 \<and> im_height bracket_image = 600 \<and>
   bracket_offset default_processor = 2 \<and>
   find_bracket_intersections default_processor bracket_image = Inr (12, 12, 788, 588) \<and>
   (\<exists>cropped. crop bracket_image (12, 12, 789, 589) = Inr cropped \<and>
      im_width cropped = 777 \<and> im_height cropped = 577 \<and>
      im_data cropped 0 0 = im_data bracket_image 12 12 \<and>
      im_data cropped 776 576 = im_data bracket_image 788 588)"
proof -
  have off: "bracket_offset default_processor = 2"
    by (simp add: default_processor_def)
  from scenario_800x600 [OF bracket_image_size off bracket_image_black]
  show ?thesis using bracket_image_size off by fastforce
qed

lemmas eval_image = marks_image_def convert_rgba_def convert_rgba_pixel_def getpixel_def
  is_black_def is_background_def

lemmas eval_scan = find_bracket_intersections_def find_top_left_def find_bottom_right_def
  find_top_right_def find_bottom_left_def find_content_bounds_fallback_def fallback_scan_def
  fallback_row_def fallback_step_def py_range_def py_range_down_def upto.simps

lemmas eval_process = process_image_def process_body_def image_open_def crop_def resize_def
  makedirs_def image_save_def path_dirname_def rstrip_sep_def

lemma flatten_size [simp]:
  "im_width (flatten resized) = im_width resized"
  "im_height (flatten resized) = im_height resized"
  by (simp_all add: flatten_def paste_def new_rgb_def)

lemma flatten_mode:
  "im_mode (flatten resized) = (if im_mode resized = ModeRGBA then ModeRGB else im_mode resized)"
  by (simp add: flatten_def paste_def new_rgb_def)

lemma default_target: "target_size default_processor = (670, 366)"
  by (simp add: default_processor_def)

lemma white_dot_bounds:
  "find_bracket_intersections default_processor white_dot = Inr (1, 1, 0, 0)"
  by (simp add: white_dot_def eval_image eval_scan)

text \<open>
  Claim C1 as stated fails on a one-pixel white image: the bounds are \<open>(1, 1, 0, 0)\<close>, the
  crop box \<open>(1, 1, 1, 1)\<close> is empty but not inverted, so the crop is accepted with size
  0 by 0, and \<^verbatim>\<open>process_image\<close> returns \<^verbatim>\<open>True\<close> with an output of the target size.
\<close>

theorem degenerate_crop_accepted:
  "im_width white_dot = 1 \<and> im_height white_dot = 1 \<and>
   is_background (getpixel (convert_rgba white_dot) (0, 0)) \<and>
   find_content_bounds_fallback (convert_rgba white_dot) = Inr (1, 1, 0, 0) \<and>
   find_bracket_intersections default_processor white_dot = Inr (1, 1, 0, 0) \<and>
   map_sum id im_width (crop white_dot (1, 1, 0 + 1, 0 + 1)) = Inr 0 \<and>
   map_sum id im_height (crop white_dot (1, 1, 0 + 1, 0 + 1)) = Inr 0 \<and>
   fst (process_image default_processor nearest
          (single_file_fs ''in/white.png'' (Picture white_dot))
          ''in/white.png'' ''out/white.png'') \<and>
   saved_size (snd (process_image default_processor nearest
          (single_file_fs ''in/white.png'' (Picture white_dot))
          ''in/white.png'' ''out/white.png'')) ''out/white.png'' = Some (670, 366)"
proof -
  have a: "im_width white_dot = 1 \<and> im_height white_dot = 1 \<and>
      is_background (getpixel (convert_rgba white_dot) (0, 0))"
    by (simp add: white_dot_def eval_image)
  have b: "find_content_bounds_fallback (convert_rgba white_dot) = Inr (1, 1, 0, 0)"
    by (simp add: white_dot_def eval_image eval_scan)
  have c: "map_sum id im_width (crop white_dot (1, 1, 0 + 1, 0 + 1)) = Inr 0 \<and>
      map_sum id im_height (crop white_dot (1, 1, 0 + 1, 0 + 1)) = Inr 0"
    by (simp add: crop_def)
  have d: "fst (process_image default_processor nearest
          (single_file_fs ''in/white.png'' (Picture white_dot))
          ''in/white.png'' ''out/white.png'') \<and>
     saved_size (snd (process_image default_processor nearest
          (single_file_fs ''in/white.png'' (Picture white_dot))
          ''in/white.png'' ''out/white.png'')) ''out/white.png'' = Some (670, 366)"
    by (simp add: eval_process white_dot_bounds single_file_fs_def saved_size_def
        default_target)
  from a b c d white_dot_bounds show ?thesis by blast
qed

lemma blank_image_background: "all_background blank_image"
  by (simp add: all_background_def blank_image_def eval_image)

text \<open>A blank 3 by 2 image: bounds \<open>(3, 2, 0, 0)\<close>, and processing it fails.\<close>

theorem all_background_outcome_witness:
  "all_background blank_image \<and>
   find_content_bounds_fallback (convert_rgba blank_image) = Inr (3, 2, 0, 0) \<and>
   find_bracket_intersections default_processor blank_image = Inr (3, 2, 0, 0) \<and>
   process_image default_processor nearest
      (single_file_fs ''in/blank.png'' (Picture blank_image)) ''in/blank.png'' ''out/blank.png''
     = (False, single_file_fs ''in/blank.png'' (Picture blank_image))"
proof -
  have sz: "im_width blank_image = 3" "im_height blank_image = 2"
    by (simp_all add: blank_image_def marks_image_def)
  have f: "fs_files (single_file_fs ''in/blank.png'' (Picture blank_image)) ''in/blank.png''
      = Some (Picture blank_image)"
    by (simp add: single_file_fs_def)
  show ?thesis
    using all_background_outcome [OF blank_image_background, of default_processor
        "single_file_fs ''in/blank.png'' (Picture blank_image)" "''in/blank.png''"
        nearest "''out/blank.png''"]
      blank_image_background f
    by (simp add: sz)
qed

text \<open>The 800 by 600 scenario with the default inset.\<close>

theorem bracket_rect_extend_only_witness:
  "find_top_left (convert_rgba bracket_image) = Some (10, 10) \<and>
   find_bottom_right (convert_rgba bracket_image) = Some (790, 590) \<and>
   bracket_rect (bracket_offset default_processor) (10, 10) (790, 590)
     (find_top_right (convert_rgba bracket_image)) (find_bottom_left (convert_rgba bracket_image))
     = (12, 12, 788, 588) \<and>
   find_bracket_intersections default_processor bracket_image = Inr (12, 12, 788, 588)"
proof -
  note sc = scenario_locator [OF bracket_image_size bracket_image_black]
  have off: "bracket_offset default_processor = 2"
    by (simp add: default_processor_def)
  from bracket_rect_extend_only [OF sc(1) sc(2), of default_processor]
  show ?thesis using sc by (auto simp: off)
qed

lemma small_bracket_scans:
  "find_top_left (convert_rgba small_bracket_image) = Some (1, 1)"
  "find_bottom_right (convert_rgba small_bracket_image) = Some (98, 98)"
  "find_top_right (convert_rgba small_bracket_image) = Some (98, 1)"
  "find_bottom_left (convert_rgba small_bracket_image) = Some (1, 98)"
proof -
  have sz: "im_width small_bracket_image = 100" "im_height small_bracket_image = 100"
    by (simp_all add: small_bracket_image_def marks_image_def)
  have black: "\<forall>x y. 0 \<le> x \<and> x < im_width small_bracket_image \<and>
        0 \<le> y \<and> y < im_height small_bracket_image \<longrightarrow>
        (is_black (getpixel (convert_rgba small_bracket_image) (x, y)) \<longleftrightarrow>
         (x = 1 \<or> x = 98) \<and> (y = 1 \<or> y = 98))"
    by (auto simp: small_bracket_image_def eval_image)
  show "find_top_left (convert_rgba small_bracket_image) = Some (1, 1)"
    by (rule four_marks_scans(1) [OF black]) (simp_all add: sz)
  show "find_bottom_right (convert_rgba small_bracket_image) = Some (98, 98)"
    by (rule four_marks_scans(2) [OF black]) (simp_all add: sz)
  show "find_top_right (convert_rgba small_bracket_image) = Some (98, 1)"
    by (rule four_marks_scans(3) [OF black]) (simp_all add: sz)
  show "find_bottom_left (convert_rgba small_bracket_image) = Some (1, 98)"
    by (rule four_marks_scans(4) [OF black]) (simp_all add: sz)
qed

lemma small_bracket_content:
  "content_pixels (convert_rgba small_bracket_image) = {(1, 1), (98, 1), (1, 98), (98, 98)}"
  by (auto simp: content_pixels_def content_in_def small_bracket_image_def eval_image)

lemma small_bracket_fallback:
  "fallback_scan (convert_rgba small_bracket_image) = (1, 1, 98, 98)"
proof -
  have "content_pixels (convert_rgba small_bracket_image) \<noteq> {}"
    by (simp add: small_bracket_content)
  from fallback_scan_exact [OF this] show ?thesis
    by (simp add: small_bracket_content)
qed

text \<open>
  The specification's scenario: an inset of 500 on a 100 by 100 image with marks near the
  corners gives \<open>right < left\<close>, and the locator returns the content bounds of the same
  image. A blank image has no top-left candidate and also takes the fallback.
\<close>

theorem locator_fallback_rule_witness:
  "find_top_left (convert_rgba small_bracket_image) = Some (1, 1) \<and>
   find_bottom_right (convert_rgba small_bracket_image) = Some (98, 98) \<and>
   bracket_rect (bracket_offset wide_offset_processor) (1, 1) (98, 98)
     (find_top_right (convert_rgba small_bracket_image))
     (find_bottom_left (convert_rgba small_bracket_image)) = (501, 501, - 402, - 402) \<and>
   find_bracket_intersections wide_offset_processor small_bracket_image = Inr (1, 1, 98, 98) \<and>
   find_top_left (convert_rgba blank_image) = None \<and>
   find_bracket_intersections default_processor blank_image = Inr (3, 2, 0, 0)"
proof -
  have off: "bracket_offset wide_offset_processor = 500"
    by (simp add: wide_offset_processor_def)
  have rect: "bracket_rect (bracket_offset wide_offset_processor) (1, 1) (98, 98)
     (find_top_right (convert_rgba small_bracket_image))
     (find_bottom_left (convert_rgba small_bracket_image)) = (501, 501, - 402, - 402)"
    by (simp add: small_bracket_scans off bracket_rect_def)
  have one: "find_bracket_intersections wide_offset_processor small_bracket_image
      = Inr (1, 1, 98, 98)"
    using locator_fallback_rule [of small_bracket_image wide_offset_processor]
      small_bracket_scans(1,2) rect
    by (simp add: small_bracket_fallback)
  have none: "find_top_left (convert_rgba blank_image) = None"
    by (rule all_background_scans(1) [OF blank_image_background])
  have blank: "fallback_scan (convert_rgba blank_image) = (3, 2, 0, 0)"
    using fallback_scan_empty [OF all_background_content [OF blank_image_background]]
    by (simp add: blank_image_def marks_image_def)
  have two: "find_bracket_intersections default_processor blank_image = Inr (3, 2, 0, 0)"
    using locator_fallback_rule [of blank_image default_processor] none
    by (simp add: blank)
  from small_bracket_scans(1,2) rect one none two show ?thesis by blast
qed

text \<open>
  Claim C3. The searches that start from the bottom or from the right run over
  \<^verbatim>\<open>range(n - 1, max(n - 50, 0), -1)\<close>, which leaves out its stop value: 49 rows or columns
  where the top-left search has 50. On a 100 by 100 image the bottom-right search reads rows
  and columns 51 to 99 and misses a black pixel at (50, 50); on a one-pixel black image it
  reads nothing, while the top-left search finds the pixel.
\<close>

theorem bottom_right_window_short:
  "im_width centre_mark_image = 100 \<and> im_height centre_mark_image = 100 \<and>
   is_black (getpixel centre_mark_image (50, 50)) \<and>
   find_bottom_right centre_mark_image = None \<and>
   py_range_down (100 - 1) (max (100 - 50) 0) = rev [51..99] \<and>
   length (py_range_down (100 - 1) (max (100 - 50) 0)) = 49 \<and>
   length (py_range (min 50 100)) = 50 \<and>
   find_top_left black_dot = Some (0, 0) \<and>
   find_bottom_right black_dot = None"
proof -
  have a: "im_width centre_mark_image = 100 \<and> im_height centre_mark_image = 100 \<and>
      is_black (getpixel centre_mark_image (50, 50))"
    by (simp add: centre_mark_image_def eval_image)
  have b: "find_bottom_right centre_mark_image = None"
    unfolding find_bottom_right_def
    by (rule scan_rows_none)
       (auto simp: py_range_down_set centre_mark_image_def eval_image)
  have c: "py_range_down (100 - 1) (max (100 - 50) 0) = rev [51..99] \<and>
      length (py_range_down (100 - 1) (max (100 - 50) 0)) = 49 \<and>
      length (py_range (min 50 100)) = 50"
    by (simp add: py_range_down_def py_range_def)
  have d: "find_top_left black_dot = Some (0, 0) \<and> find_bottom_right black_dot = None"
    by (simp add: black_dot_def eval_image find_top_left_def find_bottom_right_def
        py_range_def py_range_down_def upto.simps)
  from a b c d show ?thesis by blast
qed

subsection \<open>Flattening\<close>

lemma div255_exact: "n \<le> 255 \<Longrightarrow> div255 (n * 255) = n"
proof -
  assume n: "n \<le> 255"
  have a: "(n * 255 + 128) div 256 = (if n \<le> 128 then n else n - 1)"
    using n by (auto intro!: Euclidean_Rings.div_nat_eqI)
  have b: "((if n \<le> 128 then n else n - 1) + (n * 255 + 128)) div 256 = n"
    using n by (auto intro!: Euclidean_Rings.div_nat_eqI)
  show ?thesis
    unfolding div255_def Let_def a by (rule b)
qed

lemma unat_u8_le: "unat (w :: u8) \<le> 255"
  using unsigned_less [of w, where ?'a = nat] by simp

lemma blend_transparent: "blend 0 bg src = bg"
  using div255_exact [OF unat_u8_le, of bg] by (simp add: blend_def)

lemma blend_opaque: "blend 255 bg src = src"
  using div255_exact [OF unat_u8_le, of src] by (simp add: blend_def)

lemma flatten_rgba_pixels:
  assumes "im_mode resized = ModeRGBA"
  shows "im_mode (flatten resized) = ModeRGB \<and>
         im_width (flatten resized) = im_width resized \<and>
         im_height (flatten resized) = im_height resized \<and>
         (\<forall>x y. 0 \<le> x \<and> x < im_width resized \<and> 0 \<le> y \<and> y < im_height resized \<longrightarrow>
            (alpha_of (im_data resized x y) = 0 \<longrightarrow>
               rgb_of (im_data (flatten resized) x y) = (255, 255, 255)) \<and>
            (alpha_of (im_data resized x y) = 255 \<longrightarrow>
               rgb_of (im_data (flatten resized) x y) = rgb_of (im_data resized x y)))"
proof -
  have px: "rgb_of (im_data (flatten resized) x y) =
      (case im_data resized x y of (r, g, b, a) \<Rightarrow> (blend a 255 r, blend a 255 g, blend a 255 b))"
    if "0 \<le> x \<and> x < im_width resized \<and> 0 \<le> y \<and> y < im_height resized" for x y
    using that assms
    by (simp add: flatten_def paste_def new_rgb_def last_band_def rgb_of_def split: prod.splits)
  have "rgb_of (im_data (flatten resized) x y) = (255, 255, 255)"
    if "0 \<le> x \<and> x < im_width resized \<and> 0 \<le> y \<and> y < im_height resized"
      and "alpha_of (im_data resized x y) = 0" for x y
    using that(2) by (cases "im_data resized x y") (simp add: px [OF that(1)] alpha_of_def blend_transparent)
  moreover have "rgb_of (im_data (flatten resized) x y) = rgb_of (im_data resized x y)"
    if "0 \<le> x \<and> x < im_width resized \<and> 0 \<le> y \<and> y < im_height resized"
      and "alpha_of (im_data resized x y) = 255" for x y
  proof (cases "im_data resized x y")
    case (fields r g b a)
    have e: "rgb_of (im_data (flatten resized) x y) = (blend a 255 r, blend a 255 g, blend a 255 b)"
      using px [OF that(1)] fields by simp
    show ?thesis
      unfolding e using that(2) fields by (simp add: alpha_of_def rgb_of_def blend_opaque)
  qed
  ultimately show ?thesis
    using assms by (simp add: flatten_mode)
qed

subsection \<open>Processing one image\<close>

lemma process_body_Inr:
  assumes "process_body self resample fs input_path output_path = Inr fs'"
  shows "\<exists>img left upper right lower cropped resized.
           fs_files fs input_path = Some (Picture img) \<and>
           find_bracket_intersections self img = Inr (left, upper, right, lower) \<and>
           crop img (left, upper, right + 1, lower + 1) = Inr cropped \<and>
           resize resample cropped (target_size self) = Inr resized \<and>
           fs' = fs\<lparr>fs_files := (fs_files fs)(output_path \<mapsto> Picture (flatten resized))\<rparr>"
  using assms
  by (auto simp: process_body_def image_open_def image_save_def
      split: sum.splits option.splits file_content.splits if_splits prod.splits)

lemma process_image_True:
  "process_image self resample fs input_path output_path = (True, fs') \<longleftrightarrow>
   process_body self resample fs input_path output_path = Inr fs'"
  by (auto simp: process_image_def split: sum.splits)

lemma crop_mode: "crop img box = Inr cropped \<Longrightarrow> im_mode cropped = im_mode img"
  by (auto simp: crop_def split: prod.splits if_splits)

lemma resize_props:
  "resize resample img sz = Inr resized \<Longrightarrow>
     im_mode resized = im_mode img \<and> im_width resized = fst sz \<and> im_height resized = snd sz"
  by (auto simp: resize_def split: if_splits)

text \<open>
  Claim C8. Whenever \<^verbatim>\<open>process_image\<close> succeeds, the image it saves has exactly the target
  size, whatever the input's size and whichever way the crop rectangle was found.
\<close>

theorem output_has_target_size:
  assumes "process_image self resample fs input_path output_path = (True, fs')"
  shows "saved_size fs' output_path = Some (target_size self)"
proof -
  from assms have "process_body self resample fs input_path output_path = Inr fs'"
    by (simp add: process_image_True)
  from process_body_Inr [OF this] obtain cropped resized where
    r: "resize resample cropped (target_size self) = Inr resized" and
    f: "fs' = fs\<lparr>fs_files := (fs_files fs)(output_path \<mapsto> Picture (flatten resized))\<rparr>"
    by blast
  show ?thesis
    using resize_props [OF r] by (simp add: f saved_size_def)
qed

lemma locator_uses_rgba_copy:
  "find_bracket_intersections self (convert_rgba img) = find_bracket_intersections self img"
proof -
  have twice: "convert_rgba (convert_rgba img) = convert_rgba img"
    by (rule convert_rgba_idem) simp
  show ?thesis
    unfolding find_bracket_intersections_unfold twice ..
qed

text \<open>
  Claim C2, as the code has it. The conversion to \<^verbatim>\<open>RGBA\<close> is local to the locator: its
  result is that of the RGBA copy. \<^verbatim>\<open>process_image\<close> crops and resizes the image as it was
  opened, in the mode it has, and flattens only a mode \<^verbatim>\<open>RGBA\<close> result: the saved image has
  mode \<^verbatim>\<open>RGB\<close> for an \<^verbatim>\<open>RGBA\<close> input and the input's mode otherwise.
\<close>

theorem normalisation_is_local:
  "find_bracket_intersections self img = find_bracket_intersections self (convert_rgba img) \<and>
   (fs_files fs input_path = Some (Picture img) \<and>
    process_image self resample fs input_path output_path = (True, fs') \<longrightarrow>
      saved_mode fs' output_path =
        Some (if im_mode img = ModeRGBA then ModeRGB else im_mode img))"
proof -
  have "saved_mode fs' output_path = Some (if im_mode img = ModeRGBA then ModeRGB else im_mode img)"
    if o: "fs_files fs input_path = Some (Picture img)"
      and p: "process_image self resample fs input_path output_path = (True, fs')"
  proof -
    from p have "process_body self resample fs input_path output_path = Inr fs'"
      by (simp add: process_image_True)
    from process_body_Inr [OF this] o obtain left upper right lower cropped resized where
      c: "crop img (left, upper, right + 1, lower + 1) = Inr cropped" and
      r: "resize resample cropped (target_size self) = Inr resized" and
      f: "fs' = fs\<lparr>fs_files := (fs_files fs)(output_path \<mapsto> Picture (flatten resized))\<rparr>"
      by auto
    have "im_mode resized = im_mode img"
      using resize_props [OF r] crop_mode [OF c] by simp
    then show ?thesis
      by (simp add: f saved_mode_def flatten_mode)
  qed
  then show ?thesis
    by (simp add: locator_uses_rgba_copy)
qed

lemma grey_dot_bounds:
  "find_bracket_intersections default_processor grey_dot = Inr (0, 0, 0, 0)"
  by (simp add: grey_dot_def eval_image eval_scan)

text \<open>
  Claim C2 as stated fails on a greyscale image: the crop is taken from the mode \<^verbatim>\<open>L\<close> image,
  not from an RGBA copy, and the saved output has mode \<^verbatim>\<open>L\<close>.
\<close>

theorem crop_keeps_source_mode:
  "im_mode grey_dot = ModeL \<and>
   find_bracket_intersections default_processor grey_dot = Inr (0, 0, 0, 0) \<and>
   map_sum id im_mode (crop grey_dot (0, 0, 0 + 1, 0 + 1)) = Inr ModeL \<and>
   fst (process_image default_processor nearest
          (single_file_fs ''in/grey.png'' (Picture grey_dot)) ''in/grey.png'' ''out/grey.png'') \<and>
   saved_mode (snd (process_image default_processor nearest
          (single_file_fs ''in/grey.png'' (Picture grey_dot)) ''in/grey.png'' ''out/grey.png''))
     ''out/grey.png'' = Some ModeL"
proof -
  have a: "im_mode grey_dot = ModeL \<and>
      map_sum id im_mode (crop grey_dot (0, 0, 0 + 1, 0 + 1)) = Inr ModeL"
    by (simp add: crop_def grey_dot_def)
  have m: "im_mode grey_dot \<noteq> ModeRGBA" by (simp add: grey_dot_def)
  have b: "fst (process_image default_processor nearest
          (single_file_fs ''in/grey.png'' (Picture grey_dot)) ''in/grey.png'' ''out/grey.png'') \<and>
     saved_mode (snd (process_image default_processor nearest
          (single_file_fs ''in/grey.png'' (Picture grey_dot)) ''in/grey.png'' ''out/grey.png''))
       ''out/grey.png'' = Some ModeL"
    using m
    by (simp add: eval_process grey_dot_bounds single_file_fs_def saved_mode_def
        default_target flatten_mode) (simp add: grey_dot_def)
  from a b grey_dot_bounds show ?thesis by blast
qed

text \<open>The same greyscale image: processing succeeds and keeps the mode.\<close>

theorem normalisation_is_local_witness:
  "fs_files (single_file_fs ''in/grey.png'' (Picture grey_dot)) ''in/grey.png''
     = Some (Picture grey_dot) \<and>
   fst (process_image default_processor nearest
          (single_file_fs ''in/grey.png'' (Picture grey_dot)) ''in/grey.png'' ''out/grey.png'') \<and>
   saved_mode (snd (process_image default_processor nearest
          (single_file_fs ''in/grey.png'' (Picture grey_dot)) ''in/grey.png'' ''out/grey.png''))
     ''out/grey.png'' = Some (im_mode grey_dot) \<and>
   find_bracket_intersections default_processor (convert_rgba grey_dot) = Inr (0, 0, 0, 0)"
proof -
  let ?fs = "single_file_fs ''in/grey.png'' (Picture grey_dot)"
  let ?res = "process_image default_processor nearest ?fs ''in/grey.png'' ''out/grey.png''"
  have o: "fs_files ?fs ''in/grey.png'' = Some (Picture grey_dot)"
    by (simp add: single_file_fs_def)
  have ok: "fst ?res"
    by (simp add: eval_process grey_dot_bounds single_file_fs_def default_target)
  then have p: "?res = (True, snd ?res)"
    by (cases ?res) simp
  have m: "im_mode grey_dot \<noteq> ModeRGBA" by (simp add: grey_dot_def)
  from normalisation_is_local [of default_processor grey_dot ?fs "''in/grey.png''" nearest
      "''out/grey.png''" "snd ?res"]
  show ?thesis using o ok p m grey_dot_bounds by simp
qed

lemma flatten_other_mode: "im_mode resized \<noteq> ModeRGBA \<Longrightarrow> flatten resized = resized"
  by (simp add: flatten_def)

text \<open>
  Claim C9, as the code has it. A resized image in mode \<^verbatim>\<open>RGBA\<close> is pasted over an opaque
  white background of the same size, giving a three-channel \<^verbatim>\<open>RGB\<close> image in which every
  fully transparent pixel is white (255, 255, 255) and every fully opaque pixel keeps its
  colour. The test is \<^verbatim>\<open>resized.mode == 'RGBA'\<close>: a resized image in any other mode is left
  as it is, and since \<^verbatim>\<open>process_image\<close> keeps the mode of its input, for an input in
  another mode the resized image itself is what is saved.
\<close>

theorem flatten_rgba:
  "(im_mode resized = ModeRGBA \<longrightarrow>
      im_mode (flatten resized) = ModeRGB \<and>
      im_width (flatten resized) = im_width resized \<and>
      im_height (flatten resized) = im_height resized \<and>
      (\<forall>x y. 0 \<le> x \<and> x < im_width resized \<and> 0 \<le> y \<and> y < im_height resized \<longrightarrow>
         (alpha_of (im_data resized x y) = 0 \<longrightarrow>
            rgb_of (im_data (flatten resized) x y) = (255, 255, 255)) \<and>
         (alpha_of (im_data resized x y) = 255 \<longrightarrow>
            rgb_of (im_data (flatten resized) x y) = rgb_of (im_data resized x y)))) \<and>
   (im_mode resized \<noteq> ModeRGBA \<longrightarrow> flatten resized = resized) \<and>
   (fs_files fs input_path = Some (Picture img) \<and> im_mode img \<noteq> ModeRGBA \<and>
    process_image self resample fs input_path output_path = (True, fs') \<longrightarrow>
      (\<exists>left upper right lower cropped saved.
         find_bracket_intersections self img = Inr (left, upper, right, lower) \<and>
         crop img (left, upper, right + 1, lower + 1) = Inr cropped \<and>
         resize resample cropped (target_size self) = Inr saved \<and>
         fs_files fs' output_path = Some (Picture saved)))"
proof (intro conjI impI)
  assume "im_mode resized = ModeRGBA"
  from flatten_rgba_pixels [OF this]
  show "im_mode (flatten resized) = ModeRGB"
    and "im_width (flatten resized) = im_width resized"
    and "im_height (flatten resized) = im_height resized"
    and "\<forall>x y. 0 \<le> x \<and> x < im_width resized \<and> 0 \<le> y \<and> y < im_height resized \<longrightarrow>
         (alpha_of (im_data resized x y) = 0 \<longrightarrow>
            rgb_of (im_data (flatten resized) x y) = (255, 255, 255)) \<and>
         (alpha_of (im_data resized x y) = 255 \<longrightarrow>
            rgb_of (im_data (flatten resized) x y) = rgb_of (im_data resized x y))"
    by blast+
next
  assume "im_mode resized \<noteq> ModeRGBA"
  then show "flatten resized = resized" by (rule flatten_other_mode)
next
  assume a: "fs_files fs input_path = Some (Picture img) \<and> im_mode img \<noteq> ModeRGBA \<and>
    process_image self resample fs input_path output_path = (True, fs')"
  then have "process_body self resample fs input_path output_path = Inr fs'"
    by (simp add: process_image_True)
  from process_body_Inr [OF this] a obtain left upper right lower cropped saved where
    l: "find_bracket_intersections self img = Inr (left, upper, right, lower)" and
    c: "crop img (left, upper, right + 1, lower + 1) = Inr cropped" and
    r: "resize resample cropped (target_size self) = Inr saved" and
    f: "fs' = fs\<lparr>fs_files := (fs_files fs)(output_path \<mapsto> Picture (flatten saved))\<rparr>"
    by auto
  have "im_mode saved \<noteq> ModeRGBA"
    using resize_props [OF r] crop_mode [OF c] a by simp
  then have "fs_files fs' output_path = Some (Picture saved)"
    by (simp add: f flatten_other_mode)
  with l c r show "\<exists>left upper right lower cropped saved.
         find_bracket_intersections self img = Inr (left, upper, right, lower) \<and>
         crop img (left, upper, right + 1, lower + 1) = Inr cropped \<and>
         resize resample cropped (target_size self) = Inr saved \<and>
         fs_files fs' output_path = Some (Picture saved)"
    by blast
qed

text \<open>Two RGBA pixels, one transparent and one opaque, and a greyscale image.\<close>

theorem flatten_rgba_witness:
  "im_mode rgba_pair = ModeRGBA \<and> im_mode (flatten rgba_pair) = ModeRGB \<and>
   alpha_of (im_data rgba_pair 0 0) = 0 \<and>
   rgb_of (im_data (flatten rgba_pair) 0 0) = (255, 255, 255) \<and>
   alpha_of (im_data rgba_pair 1 0) = 255 \<and>
   rgb_of (im_data (flatten rgba_pair) 1 0) = (4, 5, 6) \<and>
   im_mode grey_dot \<noteq> ModeRGBA \<and> flatten grey_dot = grey_dot \<and>
   fst (process_image default_processor nearest
          (single_file_fs ''in/grey.png'' (Picture grey_dot)) ''in/grey.png'' ''out/grey.png'') \<and>
   saved_size (snd (process_image default_processor nearest
          (single_file_fs ''in/grey.png'' (Picture grey_dot)) ''in/grey.png'' ''out/grey.png''))
     ''out/grey.png'' = Some (670, 366)"
proof -
  let ?fs = "single_file_fs ''in/grey.png'' (Picture grey_dot)"
  let ?res = "process_image default_processor nearest ?fs ''in/grey.png'' ''out/grey.png''"
  have m: "im_mode rgba_pair = ModeRGBA" by (simp add: rgba_pair_def)
  have d: "im_width rgba_pair = 2" "im_height rgba_pair = 1"
    "alpha_of (im_data rgba_pair 0 0) = 0" "alpha_of (im_data rgba_pair 1 0) = 255"
    "rgb_of (im_data rgba_pair 1 0) = (4, 5, 6)"
    by (simp_all add: rgba_pair_def alpha_of_def rgb_of_def)
  have g: "im_mode grey_dot \<noteq> ModeRGBA" by (simp add: grey_dot_def)
  have o: "fs_files ?fs ''in/grey.png'' = Some (Picture grey_dot)"
    by (simp add: single_file_fs_def)
  have ok: "fst ?res"
    by (simp add: eval_process grey_dot_bounds single_file_fs_def default_target)
  then have p: "?res = (True, snd ?res)" by (cases ?res) simp
  note rgba = flatten_rgba [of rgba_pair ?fs "''in/grey.png''" grey_dot default_processor nearest
      "''out/grey.png''" "snd ?res"]
  note grey = flatten_rgba [of grey_dot ?fs "''in/grey.png''" grey_dot default_processor nearest
      "''out/grey.png''" "snd ?res"]
  from rgba m have fm: "im_mode (flatten rgba_pair) = ModeRGB"
    and px: "\<forall>x y. 0 \<le> x \<and> x < 2 \<and> 0 \<le> y \<and> y < 1 \<longrightarrow>
            (alpha_of (im_data rgba_pair x y) = 0 \<longrightarrow>
               rgb_of (im_data (flatten rgba_pair) x y) = (255, 255, 255)) \<and>
            (alpha_of (im_data rgba_pair x y) = 255 \<longrightarrow>
               rgb_of (im_data (flatten rgba_pair) x y) = rgb_of (im_data rgba_pair x y))"
    by (simp_all add: d)
  from px have p0: "rgb_of (im_data (flatten rgba_pair) 0 0) = (255, 255, 255)"
    and p1: "rgb_of (im_data (flatten rgba_pair) 1 0) = (4, 5, 6)"
    using d by auto
  from grey g have same: "flatten grey_dot = grey_dot" by blast
  from grey o g p obtain cropped saved where
    r: "resize nearest cropped (target_size default_processor) = Inr saved" and
    s: "fs_files (snd ?res) ''out/grey.png'' = Some (Picture saved)"
    by blast
  have sz: "saved_size (snd ?res) ''out/grey.png'' = Some (670, 366)"
    using resize_props [OF r] by (simp add: s saved_size_def default_target)
  from m fm d p0 p1 g same ok sz show ?thesis by simp
qed

text \<open>
  Claim C9 as stated fails on a grey image with an alpha channel (mode \<^verbatim>\<open>LA\<close>): its fully
  transparent pixel is not made white, the image stays in mode \<^verbatim>\<open>LA\<close>, and
  \<^verbatim>\<open>process_image\<close> saves it so.
\<close>

theorem la_image_not_flattened:
  "im_mode la_dot = ModeLA \<and> alpha_of (im_data la_dot 0 0) = 0 \<and>
   flatten la_dot = la_dot \<and> im_mode (flatten la_dot) = ModeLA \<and>
   rgb_of (im_data (flatten la_dot) 0 0) = (7, 0, 0) \<and>
   fst (process_image default_processor nearest
          (single_file_fs ''in/la.png'' (Picture la_dot)) ''in/la.png'' ''out/la.png'') \<and>
   saved_mode (snd (process_image default_processor nearest
          (single_file_fs ''in/la.png'' (Picture la_dot)) ''in/la.png'' ''out/la.png''))
     ''out/la.png'' = Some ModeLA"
proof -
  have a: "im_mode la_dot = ModeLA \<and> alpha_of (im_data la_dot 0 0) = 0 \<and>
      flatten la_dot = la_dot \<and> im_mode (flatten la_dot) = ModeLA \<and>
      rgb_of (im_data (flatten la_dot) 0 0) = (7, 0, 0)"
    by (simp add: la_dot_def flatten_def alpha_of_def rgb_of_def)
  have l: "find_bracket_intersections default_processor la_dot = Inr (0, 0, 0, 0)"
    by (simp add: la_dot_def eval_image eval_scan)
  have m: "im_mode la_dot \<noteq> ModeRGBA" "im_mode la_dot = ModeLA" by (simp_all add: la_dot_def)
  have b: "fst (process_image default_processor nearest
          (single_file_fs ''in/la.png'' (Picture la_dot)) ''in/la.png'' ''out/la.png'') \<and>
     saved_mode (snd (process_image default_processor nearest
          (single_file_fs ''in/la.png'' (Picture la_dot)) ''in/la.png'' ''out/la.png''))
       ''out/la.png'' = Some ModeLA"
    using m
    by (simp add: eval_process l single_file_fs_def saved_mode_def default_target flatten_mode)
  from a b show ?thesis by blast
qed

lemma two_dot_bounds:
  "find_bracket_intersections default_processor two_dot_image = Inr (1, 0, 2, 1)"
  by (simp add: two_dot_image_def eval_image eval_scan)

text \<open>One image that takes the fallback and one that takes the bracket rectangle.\<close>

theorem output_has_target_size_witness:
  "fst (process_image default_processor nearest
          (single_file_fs ''in/dots.png'' (Picture two_dot_image)) ''in/dots.png'' ''out/dots.png'') \<and>
   saved_size (snd (process_image default_processor nearest
          (single_file_fs ''in/dots.png'' (Picture two_dot_image)) ''in/dots.png'' ''out/dots.png''))
     ''out/dots.png'' = Some (670, 366) \<and>
   fst (process_image default_processor nearest
          (single_file_fs ''in/marks.png'' (Picture bracket_image)) ''in/marks.png'' ''out/marks.png'') \<and>
   saved_size (snd (process_image default_processor nearest
          (single_file_fs ''in/marks.png'' (Picture bracket_image)) ''in/marks.png'' ''out/marks.png''))
     ''out/marks.png'' = Some (670, 366)"
proof -
  let ?fs1 = "single_file_fs ''in/dots.png'' (Picture two_dot_image)"
  let ?r1 = "process_image default_processor nearest ?fs1 ''in/dots.png'' ''out/dots.png''"
  let ?fs2 = "single_file_fs ''in/marks.png'' (Picture bracket_image)"
  let ?r2 = "process_image default_processor nearest ?fs2 ''in/marks.png'' ''out/marks.png''"
  have ok1: "fst ?r1"
    by (simp add: eval_process two_dot_bounds single_file_fs_def default_target)
  then have p1: "?r1 = (True, snd ?r1)" by (cases ?r1) simp
  have loc2: "find_bracket_intersections default_processor bracket_image = Inr (12, 12, 788, 588)"
    by (rule scenario_bounds [OF bracket_image_size _ bracket_image_black])
       (simp add: default_processor_def)
  have ok2: "fst ?r2"
    by (simp add: eval_process loc2 single_file_fs_def default_target)
  then have p2: "?r2 = (True, snd ?r2)" by (cases ?r2) simp
  from output_has_target_size [OF p1] output_has_target_size [OF p2] ok1 ok2
  show ?thesis by (simp add: default_target)
qed

subsection \<open>Processing a directory\<close>



lemma process_image_failure:
  "process_image self resample fs input_path output_path = (False, fs') \<Longrightarrow> fs' = fs"
  by (auto simp: process_image_def split: sum.splits)










end
